theory Spec2Isabelle
  imports Main "HOL-Library.AList"
begin

section \<open>Files on disk\<close>

text \<open>
  Both subsystems keep their state in files. What a read of a path can find is one of three
  things: no file, a file that the parser (\<^verbatim>\<open>json.load\<close>, \<^verbatim>\<open>pd.read_csv\<close>) rejects with an
  exception, or a file with parsed content. A filesystem maps every path to one of them.
  Writes are assumed to succeed and to read back as what was written; directories are not
  modelled.
\<close>

datatype 'a file_state = Missing | Unparsable | Parsed 'a

type_synonym 'a filesystem = "string \<Rightarrow> 'a file_state"

text \<open>
  Python dictionaries keep insertion order, so a dictionary is an association list:
  \<^const>\<open>map_of\<close> reads a key, \<^const>\<open>AList.update\<close> overwrites the value in place or appends a
  new key at the end, \<^const>\<open>AList.delete\<close> is \<^verbatim>\<open>del d[k]\<close>.
\<close>

definition dict_get :: "('k \<times> 'v) list \<Rightarrow> 'k \<Rightarrow> 'v \<Rightarrow> 'v" where
  "dict_get d k dflt = (case map_of d k of None \<Rightarrow> dflt | Some v \<Rightarrow> v)"

definition dict_has :: "('k \<times> 'v) list \<Rightarrow> 'k \<Rightarrow> bool" where
  "dict_has d k = (map_of d k \<noteq> None)"

text \<open>
  The exceptions that the code catches, as values. \<^verbatim>\<open>open\<close> of a missing file raises
  \<^verbatim>\<open>FileNotFoundError\<close>; the parser raises on content it cannot read.
\<close>

datatype py_error = FileNotFoundError | ParseError

definition os_path_exists :: "'a filesystem \<Rightarrow> string \<Rightarrow> bool" where
  "os_path_exists fs path = (case fs path of Missing \<Rightarrow> False | _ \<Rightarrow> True)"

definition read_parsed :: "'a filesystem \<Rightarrow> string \<Rightarrow> py_error + 'a" where
  "read_parsed fs path =
     (case fs path of
        Missing \<Rightarrow> Inl FileNotFoundError
      | Unparsable \<Rightarrow> Inl ParseError
      | Parsed x \<Rightarrow> Inr x)"

section \<open>The failed-game ledger (failed\_games.py)\<close>

text \<open>
  One entry of the JSON store. The key \<^verbatim>\<open>retry_count\<close> may be missing from an entry
  (the code reads it with \<^verbatim>\<open>entry.get('retry_count', 0)\<close>), so it is optional; the other
  keys are read with \<^verbatim>\<open>entry[...]\<close> and are present in every entry of the store format.
  Parsed content is content of that format; JSON of another shape is outside the model.
\<close>

record entry =
  division :: string
  gender :: string
  error_type :: string
  error_message :: string
  retry_count :: "int option"

text \<open>The store: ISO date \<open>\<rightarrow>\<close> game link \<open>\<rightarrow>\<close> entries. A date is given by its
  \<^verbatim>\<open>isoformat()\<close> string, the only way the code uses it.\<close>

type_synonym games = "(string \<times> entry list) list"
type_synonym ledger = "(string \<times> games) list"

text \<open>\<^verbatim>\<open>entry.get('retry_count', 0)\<close>\<close>

definition get_retry_count :: "entry \<Rightarrow> int" where
  "get_retry_count e = (case retry_count e of None \<Rightarrow> 0 | Some n \<Rightarrow> n)"

text \<open>The search loops of \<^verbatim>\<open>save_failed_game\<close> and \<^verbatim>\<open>mark_game_as_retried\<close>: the index of
  the first entry with the given division and gender, where the loop breaks.\<close>

fun find_existing :: "entry list \<Rightarrow> string \<Rightarrow> string \<Rightarrow> nat option" where
  "find_existing [] dv gn = None"
| "find_existing (e # es) dv gn =
     (if division e = dv \<and> gender e = gn then Some 0
      else map_option Suc (find_existing es dv gn))"

text \<open>Lines 55-75 of \<^verbatim>\<open>save_failed_game\<close>: update the entry found, in place, or append.\<close>

definition save_entries ::
  "entry list \<Rightarrow> string \<Rightarrow> string \<Rightarrow> string \<Rightarrow> string \<Rightarrow> entry list" where
  "save_entries entries dv gn etype emsg =
     (case find_existing entries dv gn of
        Some i \<Rightarrow>
          entries[i := (entries ! i)\<lparr>error_type := etype, error_message := emsg,
                                     retry_count := Some (get_retry_count (entries ! i))\<rparr>]
      | None \<Rightarrow>
          entries @ [\<lparr>division = dv, gender = gn, error_type = etype,
                      error_message = emsg, retry_count = Some 0\<rparr>])"

text \<open>Lines 46-75: the in-memory update of the loaded store.\<close>

definition save_store ::
  "ledger \<Rightarrow> string \<Rightarrow> string \<Rightarrow> string \<Rightarrow> string \<Rightarrow> string \<Rightarrow> string \<Rightarrow> ledger" where
  "save_store failed_games game_link date_key dv gn etype emsg =
     (let fg1 = (if dict_has failed_games date_key then failed_games
                 else AList.update date_key [] failed_games);
          gs = dict_get fg1 date_key [];
          gs1 = (if dict_has gs game_link then gs else AList.update game_link [] gs);
          entries = dict_get gs1 game_link []
      in AList.update date_key
           (AList.update game_link (save_entries entries dv gn etype emsg) gs1) fg1)"

text \<open>Lines 36-44: a missing file and a file that does not parse both give the empty store.\<close>

definition load_or_empty :: "ledger filesystem \<Rightarrow> string \<Rightarrow> ledger" where
  "load_or_empty fs path =
     (if os_path_exists fs path then
        (case read_parsed fs path of Inl e \<Rightarrow> [] | Inr failed_games \<Rightarrow> failed_games)
      else [])"

definition save_failed_game ::
  "ledger filesystem \<Rightarrow> string \<Rightarrow> string \<Rightarrow> string \<Rightarrow> string \<Rightarrow> string \<Rightarrow> string \<Rightarrow> string
     \<Rightarrow> ledger filesystem" where
  "save_failed_game fs failed_games_file game_link date_key dv gn etype emsg =
     fs(failed_games_file :=
          Parsed (save_store (load_or_empty fs failed_games_file)
                    game_link date_key dv gn etype emsg))"


text \<open>\<^verbatim>\<open>get_failed_games_for_division_gender\<close>: one link per game that has a matching entry,
  in the order of the date's dictionary.\<close>

definition get_failed_games_for_division_gender ::
  "ledger \<Rightarrow> string \<Rightarrow> string \<Rightarrow> string \<Rightarrow> string list" where
  "get_failed_games_for_division_gender failed_games date_key dv gn =
     map fst (filter (\<lambda>(game_link, entries). find_existing entries dv gn \<noteq> None)
                (dict_get failed_games date_key []))"

text \<open>Lines 182-194 of \<^verbatim>\<open>mark_game_as_retried\<close>: the loop over the game's entries, which
  changes the entry list in place and may delete the game from the date's dictionary.\<close>

definition retry_games :: "games \<Rightarrow> string \<Rightarrow> entry list \<Rightarrow> string \<Rightarrow> string \<Rightarrow> bool \<Rightarrow> games" where
  "retry_games gs game_link entries dv gn success =
     (case find_existing entries dv gn of
        None \<Rightarrow> gs
      | Some i \<Rightarrow>
          if success then
            (let popped = take i entries @ drop (Suc i) entries
             in if popped = [] then AList.delete game_link gs
                else AList.update game_link popped gs)
          else
            AList.update game_link
              (entries[i := (entries ! i)\<lparr>retry_count :=
                                Some (get_retry_count (entries ! i) + 1)\<rparr>]) gs)"

text \<open>Lines 174-198: the in-memory update of the loaded store; \<^const>\<open>None\<close> is the early
  \<^verbatim>\<open>return\<close> that writes nothing.\<close>

definition retry_store ::
  "ledger \<Rightarrow> string \<Rightarrow> string \<Rightarrow> string \<Rightarrow> string \<Rightarrow> bool \<Rightarrow> ledger option" where
  "retry_store failed_games game_link date_key dv gn success =
     (case map_of failed_games date_key of
        None \<Rightarrow> None
      | Some gs \<Rightarrow>
          (case map_of gs game_link of
             None \<Rightarrow> None
           | Some entries \<Rightarrow>
               (let gs' = retry_games gs game_link entries dv gn success
                in Some (if gs' = [] then AList.delete date_key failed_games
                         else AList.update date_key gs' failed_games))))"

text \<open>\<^verbatim>\<open>mark_game_as_retried\<close>: no file, no effect; an exception while reading is caught and
  nothing is written.\<close>

definition mark_game_as_retried ::
  "ledger filesystem \<Rightarrow> string \<Rightarrow> string \<Rightarrow> string \<Rightarrow> string \<Rightarrow> string \<Rightarrow> bool
     \<Rightarrow> ledger filesystem" where
  "mark_game_as_retried fs failed_games_file game_link date_key dv gn success =
     (if \<not> os_path_exists fs failed_games_file then fs
      else
        (case read_parsed fs failed_games_file of
           Inl e \<Rightarrow> fs
         | Inr failed_games \<Rightarrow>
             (case retry_store failed_games game_link date_key dv gn success of
                None \<Rightarrow> fs
              | Some failed_games' \<Rightarrow> fs(failed_games_file := Parsed failed_games'))))"

subsection \<open>Ledger states and their invariant\<close>

text \<open>
  The identity of a record inside a game's entry list is its (division, gender) pair. A
  ledger state is a store whose dictionaries have each key once, as every Python dictionary
  has, and whose entry lists hold at most one record per identity.
\<close>

definition key_of :: "entry \<Rightarrow> string \<times> string" where
  "key_of e = (division e, gender e)"

definition unique_records :: "entry list \<Rightarrow> bool" where
  "unique_records es = distinct (map key_of es)"

definition games_inv :: "games \<Rightarrow> bool" where
  "games_inv gs = (distinct (map fst gs) \<and> list_all (\<lambda>(game_link, es). unique_records es) gs)"

definition ledger_inv :: "ledger \<Rightarrow> bool" where
  "ledger_inv l = (distinct (map fst l) \<and> list_all (\<lambda>(date_key, gs). games_inv gs) l)"

definition file_inv :: "ledger file_state \<Rightarrow> bool" where
  "file_inv f = (case f of Missing \<Rightarrow> True | Unparsable \<Rightarrow> True | Parsed l \<Rightarrow> ledger_inv l)"

definition entries_of :: "ledger \<Rightarrow> string \<Rightarrow> string \<Rightarrow> entry list" where
  "entries_of l date_key game_link = dict_get (dict_get l date_key []) game_link []"

definition records_for :: "ledger \<Rightarrow> string \<Rightarrow> string \<Rightarrow> string \<Rightarrow> string \<Rightarrow> entry list" where
  "records_for l date_key game_link dv gn =
     filter (\<lambda>e. key_of e = (dv, gn)) (entries_of l date_key game_link)"

subsection \<open>Sequences of calls for one key\<close>

datatype event = Save string string | Retried bool

fun apply_event ::
  "string \<Rightarrow> string \<Rightarrow> string \<Rightarrow> string \<Rightarrow> string \<Rightarrow> ledger filesystem \<Rightarrow> event
     \<Rightarrow> ledger filesystem" where
  "apply_event file game_link date_key dv gn fs (Save etype emsg) =
     save_failed_game fs file game_link date_key dv gn etype emsg"
| "apply_event file game_link date_key dv gn fs (Retried success) =
     mark_game_as_retried fs file game_link date_key dv gn success"

definition run_events ::
  "ledger filesystem \<Rightarrow> string \<Rightarrow> string \<Rightarrow> string \<Rightarrow> string \<Rightarrow> string \<Rightarrow> event list
     \<Rightarrow> ledger filesystem" where
  "run_events fs file game_link date_key dv gn evs =
     foldl (apply_event file game_link date_key dv gn) fs evs"

fun is_save :: "event \<Rightarrow> bool" where
  "is_save (Save etype emsg) = True"
| "is_save (Retried success) = False"

text \<open>The calls after the last successful retry (all of them when there is none).\<close>

definition since_last_success :: "event list \<Rightarrow> event list" where
  "since_last_success evs = rev (takeWhile (\<lambda>ev. ev \<noteq> Retried True) (rev evs))"

text \<open>The calls made while the record exists: from the first save after the last
  successful retry on.\<close>

definition record_life :: "event list \<Rightarrow> event list" where
  "record_life evs = dropWhile (\<lambda>ev. \<not> is_save ev) (since_last_success evs)"

definition failed_retries :: "event list \<Rightarrow> int" where
  "failed_retries evs = int (length (filter (\<lambda>ev. ev = Retried False) evs))"

text \<open>The error type and message of the last save call.\<close>

definition last_save :: "event list \<Rightarrow> string \<times> string" where
  "last_save evs =
     foldl (\<lambda>seen ev. case ev of Save etype emsg \<Rightarrow> (etype, emsg) | Retried success \<Rightarrow> seen)
       ([], []) evs"

section \<open>The CSV reconciliation engine (storage/csv\_handler.py)\<close>

text \<open>
  A \<^verbatim>\<open>DataFrame\<close> is its column index and its rows in order; a row maps a column name to
  the cell it holds, and a cell that pandas shows as NaN (nothing in the file, or a column
  that \<^verbatim>\<open>pd.concat\<close> added to the row) is \<^const>\<open>None\<close>. Row labels are not modelled: every
  write is \<^verbatim>\<open>index=False\<close> and the one \<^verbatim>\<open>concat\<close> is \<^verbatim>\<open>ignore_index=True\<close>.
\<close>

datatype cell = CStr string | CNum int | CBool bool

type_synonym row = "string \<Rightarrow> cell option"

record dataframe =
  columns :: "string list"
  rows :: "row list"

text \<open>\<^verbatim>\<open>df.empty\<close>: one of the two axes has length 0.\<close>

definition df_empty :: "dataframe \<Rightarrow> bool" where
  "df_empty df = (columns df = [] \<or> rows df = [])"

text \<open>\<^verbatim>\<open>df[c].values\<close>, for a column \<open>c\<close> of the frame.\<close>

definition column_values :: "dataframe \<Rightarrow> string \<Rightarrow> cell option list" where
  "column_values df c = map (\<lambda>r. r c) (rows df)"

text \<open>\<^verbatim>\<open>df[mask]\<close> with the mask computed row by row.\<close>

definition df_filter :: "(row \<Rightarrow> bool) \<Rightarrow> dataframe \<Rightarrow> dataframe" where
  "df_filter keep df = df\<lparr>rows := filter keep (rows df)\<rparr>"

text \<open>\<^verbatim>\<open>pd.concat([a, b], ignore_index=True)\<close>: the columns of \<open>a\<close>, then those of \<open>b\<close>
  that \<open>a\<close> lacks; the rows of \<open>a\<close>, then the rows of \<open>b\<close>.\<close>

definition pd_concat :: "dataframe \<Rightarrow> dataframe \<Rightarrow> dataframe" where
  "pd_concat a b =
     \<lparr>columns = columns a @ filter (\<lambda>c. c \<notin> set (columns a)) (columns b),
      rows = rows a @ rows b\<rparr>"


definition read_csv_safely :: "dataframe filesystem \<Rightarrow> string \<Rightarrow> dataframe option" where
  "read_csv_safely fs csv_path =
     (if \<not> os_path_exists fs csv_path then None
      else (case read_parsed fs csv_path of Inl e \<Rightarrow> None | Inr df \<Rightarrow> Some df))"


text \<open>\<^verbatim>\<open>merge_csv_files\<close>. Both files are read before the output is written. A row of the
  new frame is dropped when its key cell is among the existing frame's cells of that column
  (\<^verbatim>\<open>isin\<close>; a missing cell is among them when the existing column has a missing cell).\<close>

definition merge_csv_files ::
  "dataframe filesystem \<Rightarrow> string \<Rightarrow> string \<Rightarrow> string \<Rightarrow> bool \<times> dataframe filesystem" where
  "merge_csv_files fs existing_csv_path new_csv_path output_path =
     (case read_csv_safely fs existing_csv_path of
        None \<Rightarrow>
          (case read_csv_safely fs new_csv_path of
             Some new_df \<Rightarrow> (True, fs(output_path := Parsed new_df))
           | None \<Rightarrow> (False, fs))
      | Some existing_df \<Rightarrow>
          (case read_csv_safely fs new_csv_path of
             None \<Rightarrow> (True, fs(output_path := Parsed existing_df))
           | Some new_df \<Rightarrow>
               if df_empty new_df then (True, fs(output_path := Parsed existing_df))
               else
                 (let existing_game_ids =
                        (if ''GAMEID'' \<in> set (columns existing_df)
                         then set (column_values existing_df ''GAMEID'') else {});
                      new_df_filtered =
                        (if ''GAMEID'' \<in> set (columns new_df)
                         then df_filter (\<lambda>r. r ''GAMEID'' \<notin> existing_game_ids) new_df
                         else
                           (let existing_game_links =
                                  (if ''GAMELINK'' \<in> set (columns existing_df)
                                   then set (column_values existing_df ''GAMELINK'') else {})
                            in if ''GAMELINK'' \<in> set (columns new_df)
                               then df_filter (\<lambda>r. r ''GAMELINK'' \<notin> existing_game_links) new_df
                               else new_df))
                  in if df_empty new_df_filtered
                     then (True, fs(output_path := Parsed existing_df))
                     else (True, fs(output_path := Parsed (pd_concat existing_df new_df_filtered))))))"

section \<open>Properties of the ledger\<close>

subsection \<open>Dictionaries\<close>

lemma dict_get_update_same: "dict_get (AList.update k v d) k dflt = v"
  by (simp add: dict_get_def update_conv')


lemma dict_get_delete_same: "dict_get (AList.delete k d) k dflt = dflt"
  by (simp add: dict_get_def delete_conv')

lemma dict_get_singleton: "dict_get [(k, v)] k dflt = v"
  by (simp add: dict_get_def)

lemma dict_get_absent: "\<not> dict_has d k \<Longrightarrow> dict_get d k dflt = dflt"
  by (simp add: dict_get_def dict_has_def)

lemma list_all_update:
  "list_all P d \<Longrightarrow> P (k, v) \<Longrightarrow> list_all P (AList.update k v d)"
  by (induction d) auto

lemma list_all_delete: "list_all P d \<Longrightarrow> list_all P (AList.delete k d)"
  by (induction d) auto

lemma list_all_dict_get:
  "list_all (\<lambda>(k, v). Q v) d \<Longrightarrow> Q dflt \<Longrightarrow> Q (dict_get d k dflt)"
  by (auto simp: dict_get_def list_all_iff split: option.splits dest: map_of_SomeD)



subsection \<open>Entry lists\<close>

lemma find_existing_None_iff:
  "find_existing es dv gn = None \<longleftrightarrow> (dv, gn) \<notin> set (map key_of es)"
  by (induction es) (auto simp: key_of_def)

lemma save_entries_Nil:
  "save_entries [] dv gn et em =
     [\<lparr>division = dv, gender = gn, error_type = et, error_message = em, retry_count = Some 0\<rparr>]"
  by (simp add: save_entries_def)

lemma save_entries_Cons:
  "save_entries (e # es) dv gn et em =
     (if division e = dv \<and> gender e = gn
      then e\<lparr>error_type := et, error_message := em, retry_count := Some (get_retry_count e)\<rparr> # es
      else e # save_entries es dv gn et em)"
  by (auto simp: save_entries_def split: option.splits)

lemma keys_save_entries:
  "map key_of (save_entries es dv gn et em) =
     (if (dv, gn) \<in> set (map key_of es) then map key_of es else map key_of es @ [(dv, gn)])"
  by (induction es) (auto simp: save_entries_Nil save_entries_Cons key_of_def)

lemma unique_save_entries:
  "unique_records es \<Longrightarrow> unique_records (save_entries es dv gn et em)"
  by (simp add: unique_records_def keys_save_entries)

lemma save_entries_found:
  "i < length es \<Longrightarrow> key_of (es ! i) = (dv, gn) \<Longrightarrow> unique_records es \<Longrightarrow>
   save_entries es dv gn et em =
     es[i := (es ! i)\<lparr>error_type := et, error_message := em,
                      retry_count := Some (get_retry_count (es ! i))\<rparr>]"
proof (induction es arbitrary: i)
  case Nil then show ?case by simp
next
  case (Cons e es)
  show ?case
  proof (cases i)
    case 0
    with Cons.prems show ?thesis by (simp add: save_entries_Cons key_of_def)
  next
    case (Suc j)
    with Cons.prems have j: "j < length es" "key_of (es ! j) = (dv, gn)" "unique_records es"
      by (simp_all add: unique_records_def)
    then have "(dv, gn) \<in> set (map key_of es)"
      by (metis length_map nth_map nth_mem)
    with Cons.prems(3) have "key_of e \<noteq> (dv, gn)"
      by (auto simp: unique_records_def)
    with Cons.IH[OF j] Suc show ?thesis
      by (auto simp: save_entries_Cons key_of_def)
  qed
qed

lemma save_entries_absent:
  "(dv, gn) \<notin> set (map key_of es) \<Longrightarrow>
   save_entries es dv gn et em =
     es @ [\<lparr>division = dv, gender = gn, error_type = et, error_message = em,
             retry_count = Some 0\<rparr>]"
  using find_existing_None_iff[of es dv gn] by (simp add: save_entries_def)

subsection \<open>The store under save\<close>

lemma save_store_eq:
  "save_store l game date dv gn et em =
     AList.update date
       (AList.update game (save_entries (entries_of l date game) dv gn et em)
          (dict_get l date [])) l"
  by (simp add: save_store_def Let_def entries_of_def dict_get_update_same dict_get_absent
      dict_get_singleton)

lemma games_inv_Nil: "games_inv []"
  by (simp add: games_inv_def)

lemma games_inv_dict_get: "ledger_inv l \<Longrightarrow> games_inv (dict_get l date [])"
  unfolding ledger_inv_def using list_all_dict_get[of games_inv l "[]" date]
  by (simp add: games_inv_Nil)

lemma unique_entries_of: "ledger_inv l \<Longrightarrow> unique_records (entries_of l date game)"
proof -
  assume "ledger_inv l"
  then have "games_inv (dict_get l date [])" by (rule games_inv_dict_get)
  then have "list_all (\<lambda>(g, es). unique_records es) (dict_get l date [])"
    by (simp add: games_inv_def)
  from list_all_dict_get[of unique_records, OF this, of "[]" game]
  show ?thesis by (simp add: entries_of_def unique_records_def)
qed

lemma games_inv_update:
  "games_inv gs \<Longrightarrow> unique_records es \<Longrightarrow> games_inv (AList.update game es gs)"
  by (simp add: games_inv_def distinct_update list_all_update)

lemma ledger_inv_update:
  "ledger_inv l \<Longrightarrow> games_inv gs \<Longrightarrow> ledger_inv (AList.update date gs l)"
  by (simp add: ledger_inv_def distinct_update list_all_update)

lemma games_inv_delete: "games_inv gs \<Longrightarrow> games_inv (AList.delete game gs)"
  by (simp add: games_inv_def distinct_delete list_all_delete)

lemma ledger_inv_delete: "ledger_inv l \<Longrightarrow> ledger_inv (AList.delete date l)"
  by (simp add: ledger_inv_def distinct_delete list_all_delete)

lemma ledger_inv_save_store:
  "ledger_inv l \<Longrightarrow> ledger_inv (save_store l game date dv gn et em)"
  by (simp add: save_store_eq ledger_inv_update games_inv_update games_inv_dict_get
      unique_save_entries unique_entries_of)

lemma entries_of_save_store_same:
  "entries_of (save_store l game date dv gn et em) date game =
     save_entries (entries_of l date game) dv gn et em"
  by (simp add: save_store_eq entries_of_def dict_get_update_same)



lemma load_or_empty_inv: "file_inv (fs file) \<Longrightarrow> ledger_inv (load_or_empty fs file)"
  by (auto simp: file_inv_def load_or_empty_def os_path_exists_def read_parsed_def ledger_inv_def
      split: file_state.splits)

subsection \<open>Saving a failure\<close>




text \<open>
  Claim C9. When the ledger file does not exist, \<^verbatim>\<open>mark_game_as_retried\<close> changes nothing:
  the filesystem is the one it was given, and the file is still missing.
\<close>

theorem mark_game_as_retried_missing_file:
  "fs path = Missing \<Longrightarrow>
     mark_game_as_retried fs path game date dv gn success = fs
     \<and> mark_game_as_retried fs path game date dv gn success path = Missing"
  by (simp add: mark_game_as_retried_def os_path_exists_def)

theorem mark_game_as_retried_missing_file_witness:
  "(\<lambda>p. Missing :: ledger file_state) ''failed.json'' = Missing
   \<and> mark_game_as_retried (\<lambda>p. Missing) ''failed.json'' ''g1'' ''2025-01-12'' ''d1'' ''men'' True
       = (\<lambda>p. Missing)
   \<and> mark_game_as_retried (\<lambda>p. Missing) ''failed.json'' ''g1'' ''2025-01-12'' ''d1'' ''men'' False
       ''failed.json'' = Missing"
  using mark_game_as_retried_missing_file[of "\<lambda>p. Missing" "''failed.json''" "''g1''"
      "''2025-01-12''" "''d1''" "''men''" True]
    mark_game_as_retried_missing_file[of "\<lambda>p. Missing" "''failed.json''" "''g1''"
      "''2025-01-12''" "''d1''" "''men''" False]
  by simp

subsection \<open>Retrying\<close>

lemma find_existing_Some:
  "find_existing es dv gn = Some i \<Longrightarrow>
     i < length es \<and> key_of (es ! i) = (dv, gn) \<and> (dv, gn) \<notin> set (map key_of (take i es))"
proof (induction es arbitrary: i)
  case Nil then show ?case by simp
next
  case (Cons e es)
  show ?case
  proof (cases "division e = dv \<and> gender e = gn")
    case True
    with Cons.prems show ?thesis by (auto simp: key_of_def)
  next
    case False
    with Cons.prems obtain j where j: "find_existing es dv gn = Some j" "i = Suc j"
      by auto
    from Cons.IH[OF j(1)] False j(2) show ?thesis by (auto simp: key_of_def)
  qed
qed

lemma filter_neq_absent: "a \<notin> set (map f xs) \<Longrightarrow> filter (\<lambda>x. f x \<noteq> a) xs = xs"
  by (induction xs) auto

lemma pop_is_filter:
  assumes "find_existing es dv gn = Some i" and "unique_records es"
  shows "take i es @ drop (Suc i) es = filter (\<lambda>e. key_of e \<noteq> (dv, gn)) es"
proof -
  from find_existing_Some[OF assms(1)]
  have i: "i < length es" and k: "key_of (es ! i) = (dv, gn)"
    and before: "(dv, gn) \<notin> set (map key_of (take i es))" by simp_all
  have split: "es = take i es @ es ! i # drop (Suc i) es"
    using i by (rule id_take_nth_drop)
  have "distinct (map key_of (take i es @ es ! i # drop (Suc i) es))"
    using assms(2) split by (simp add: unique_records_def)
  then have after: "(dv, gn) \<notin> set (map key_of (drop (Suc i) es))"
    using k by auto
  have "filter (\<lambda>e. key_of e \<noteq> (dv, gn)) es =
        filter (\<lambda>e. key_of e \<noteq> (dv, gn)) (take i es @ es ! i # drop (Suc i) es)"
    using split by simp
  also have "\<dots> = take i es @ drop (Suc i) es"
    using k before after by (simp add: filter_neq_absent)
  finally show ?thesis by simp
qed

lemma unique_records_filter: "unique_records es \<Longrightarrow> unique_records (filter P es)"
  by (simp add: unique_records_def distinct_map_filter)

lemma keys_bump:
  "i < length es \<Longrightarrow> map key_of (es[i := (es ! i)\<lparr>retry_count := c\<rparr>]) = map key_of es"
  by (simp add: map_update key_of_def list_update_same_conv)

lemma filter_key_absent: "a \<notin> set (map f xs) \<Longrightarrow> filter (\<lambda>x. f x = a) xs = []"
  by (induction xs) auto

lemma filter_key_single:
  assumes "distinct (map key_of es)" and "i < length es" and "key_of (es ! i) = k"
  shows "filter (\<lambda>e. key_of e = k) es = [es ! i]"
proof -
  have split: "es = take i es @ es ! i # drop (Suc i) es"
    using assms(2) by (rule id_take_nth_drop)
  have "distinct (map key_of (take i es @ es ! i # drop (Suc i) es))"
    using assms(1) split by simp
  then have "k \<notin> set (map key_of (take i es))" "k \<notin> set (map key_of (drop (Suc i) es))"
    using assms(3) by auto
  then have "filter (\<lambda>e. key_of e = k) (take i es @ es ! i # drop (Suc i) es) = [es ! i]"
    using assms(3) by (simp add: filter_key_absent)
  with split show ?thesis by simp
qed

lemma records_found:
  assumes "find_existing es dv gn = Some i" and "unique_records es"
  shows "filter (\<lambda>e. key_of e = (dv, gn)) es = [es ! i]"
  using find_existing_Some[OF assms(1)] assms(2)
  by (simp add: filter_key_single unique_records_def)

lemma records_absent:
  "find_existing es dv gn = None \<Longrightarrow> filter (\<lambda>e. key_of e = (dv, gn)) es = []"
  by (simp add: find_existing_None_iff filter_key_absent)

lemma records_bump:
  assumes "find_existing es dv gn = Some i" and "unique_records es"
  shows "filter (\<lambda>e. key_of e = (dv, gn))
           (es[i := (es ! i)\<lparr>retry_count := Some (get_retry_count (es ! i) + 1)\<rparr>])
         = map (\<lambda>e. e\<lparr>retry_count := Some (get_retry_count e + 1)\<rparr>)
             (filter (\<lambda>e. key_of e = (dv, gn)) es)"
proof -
  let ?x = "(es ! i)\<lparr>retry_count := Some (get_retry_count (es ! i) + 1)\<rparr>"
  from find_existing_Some[OF assms(1)]
  have i: "i < length es" and k: "key_of (es ! i) = (dv, gn)" by simp_all
  have "distinct (map key_of (es[i := ?x]))"
    using assms(2) i by (simp only: keys_bump unique_records_def)
  moreover have "i < length (es[i := ?x])" using i by simp
  moreover have "key_of (es[i := ?x] ! i) = (dv, gn)"
    using i k by (simp add: key_of_def)
  ultimately have "filter (\<lambda>e. key_of e = (dv, gn)) (es[i := ?x]) = [es[i := ?x] ! i]"
    by (rule filter_key_single)
  then show ?thesis
    using i by (simp add: records_found[OF assms])
qed

lemma records_popped:
  assumes "find_existing es dv gn = Some i" and "unique_records es"
  shows "filter (\<lambda>e. key_of e = (dv, gn)) (take i es @ drop (Suc i) es) = []"
  unfolding pop_is_filter[OF assms] by (simp add: filter_empty_conv)


subsection \<open>The store under a retry\<close>

lemma entries_of_lookup:
  "map_of l date = Some gs \<Longrightarrow> map_of gs game = Some es \<Longrightarrow> entries_of l date game = es"
  by (simp add: entries_of_def dict_get_def)

lemma retry_store_None:
  "retry_store l game date dv gn s = None \<Longrightarrow> entries_of l date game = []"
  by (auto simp: retry_store_def entries_of_def dict_get_def Let_def split: option.splits)

lemma retry_store_Some:
  "map_of l date = Some gs \<Longrightarrow> map_of gs game = Some es \<Longrightarrow>
   retry_store l game date dv gn s =
     Some (if retry_games gs game es dv gn s = [] then AList.delete date l
           else AList.update date (retry_games gs game es dv gn s) l)"
  by (simp add: retry_store_def Let_def)

lemma retry_store_SomeD:
  assumes "retry_store l game date dv gn s = Some l'"
  obtains gs es where "map_of l date = Some gs" "map_of gs game = Some es"
    "l' = (if retry_games gs game es dv gn s = [] then AList.delete date l
           else AList.update date (retry_games gs game es dv gn s) l)"
  using assms by (auto simp: retry_store_def Let_def split: option.splits)

lemma games_inv_lookup: "ledger_inv l \<Longrightarrow> map_of l date = Some gs \<Longrightarrow> games_inv gs"
  using games_inv_dict_get[of l date] by (simp add: dict_get_def)

lemma unique_lookup: "games_inv gs \<Longrightarrow> map_of gs game = Some es \<Longrightarrow> unique_records es"
  by (auto simp: games_inv_def list_all_iff dest: map_of_SomeD)

lemma retry_games_cases:
  "retry_games gs game es dv gn s =
     (case find_existing es dv gn of
        None \<Rightarrow> gs
      | Some i \<Rightarrow>
          if s then
            (if take i es @ drop (Suc i) es = [] then AList.delete game gs
             else AList.update game (take i es @ drop (Suc i) es) gs)
          else AList.update game
                 (es[i := (es ! i)\<lparr>retry_count := Some (get_retry_count (es ! i) + 1)\<rparr>]) gs)"
  by (simp add: retry_games_def Let_def split: option.splits)

lemma games_inv_retry_games:
  assumes "games_inv gs" and "unique_records es"
  shows "games_inv (retry_games gs game es dv gn s)"
proof (cases "find_existing es dv gn")
  case None
  then show ?thesis using assms by (simp add: retry_games_cases)
next
  case (Some i)
  have i: "i < length es" using find_existing_Some[OF Some] by simp
  have "unique_records (take i es @ drop (Suc i) es)"
    using assms(2) by (simp add: pop_is_filter[OF Some assms(2)] unique_records_filter)
  moreover have "unique_records
      (es[i := (es ! i)\<lparr>retry_count := Some (get_retry_count (es ! i) + 1)\<rparr>])"
    using assms(2) i by (simp only: unique_records_def keys_bump)
  ultimately show ?thesis
    using Some assms(1) by (simp add: retry_games_cases games_inv_delete games_inv_update)
qed

lemma ledger_inv_retry_store:
  assumes "ledger_inv l" and "retry_store l game date dv gn s = Some l'"
  shows "ledger_inv l'"
proof -
  from assms(2) obtain gs es where gs: "map_of l date = Some gs" and es: "map_of gs game = Some es"
    and l': "l' = (if retry_games gs game es dv gn s = [] then AList.delete date l
           else AList.update date (retry_games gs game es dv gn s) l)"
    by (rule retry_store_SomeD)
  have "games_inv gs" using assms(1) gs by (rule games_inv_lookup)
  then have "games_inv (retry_games gs game es dv gn s)"
    using unique_lookup[OF _ es] by (simp add: games_inv_retry_games)
  then show ?thesis
    using assms(1) by (simp add: l' ledger_inv_delete ledger_inv_update)
qed

lemma records_for_retry_store:
  assumes "ledger_inv l" and "retry_store l game date dv gn s = Some l'"
  shows "records_for l' date game dv gn =
           (if s then []
            else map (\<lambda>e. e\<lparr>retry_count := Some (get_retry_count e + 1)\<rparr>)
                   (records_for l date game dv gn))"
proof -
  from assms(2) obtain gs es where gs: "map_of l date = Some gs" and es: "map_of gs game = Some es"
    and l': "l' = (if retry_games gs game es dv gn s = [] then AList.delete date l
           else AList.update date (retry_games gs game es dv gn s) l)"
    by (rule retry_store_SomeD)
  have ginv: "games_inv gs" using assms(1) gs by (rule games_inv_lookup)
  have uniq: "unique_records es" using ginv es by (rule unique_lookup)
  have old: "entries_of l date game = es" using gs es by (rule entries_of_lookup)
  have new: "entries_of l' date game = dict_get (retry_games gs game es dv gn s) game []"
    by (simp add: l' entries_of_def dict_get_update_same dict_get_delete_same)
  show ?thesis
  proof (cases "find_existing es dv gn")
    case None
    then have "retry_games gs game es dv gn s = gs" by (simp add: retry_games_cases)
    then have "entries_of l' date game = es" using new es by (simp add: dict_get_def)
    then show ?thesis using None by (simp add: records_for_def old records_absent)
  next
    case (Some i)
    show ?thesis
    proof (cases s)
      case True
      have "filter (\<lambda>e. key_of e = (dv, gn)) (dict_get (retry_games gs game es dv gn s) game []) = []"
        using Some True records_popped[OF Some uniq]
        by (simp add: retry_games_cases dict_get_update_same dict_get_delete_same)
      then show ?thesis using True by (simp add: records_for_def new)
    next
      case False
      then show ?thesis
        using Some records_bump[OF Some uniq]
        by (simp add: records_for_def new old retry_games_cases dict_get_update_same)
    qed
  qed
qed

lemma query_members:
  "game \<in> set (get_failed_games_for_division_gender l date dv gn) \<Longrightarrow>
     \<exists>es. (game, es) \<in> set (dict_get l date []) \<and> find_existing es dv gn \<noteq> None"
  by (auto simp: get_failed_games_for_division_gender_def)

text \<open>
  Claim C3. In a ledger state that holds a record for (date, game, division, gender), a
  successful retry writes the store with that record deleted from the game's entries; the game
  is deleted from the date when no entry is left, and the date from the store when no game is
  left. A query for (date, division, gender) on the written store does not return the game.
\<close>

theorem mark_game_as_retried_success_removes:
  fixes fs :: "ledger filesystem" and path game date dv gn :: string and l :: ledger
  assumes "fs path = Parsed l" and "ledger_inv l" and "records_for l date game dv gn \<noteq> []"
  defines "es' \<equiv> filter (\<lambda>e. key_of e \<noteq> (dv, gn)) (entries_of l date game)"
  defines "gs' \<equiv> (if es' = [] then AList.delete game (dict_get l date [])
                   else AList.update game es' (dict_get l date []))"
  defines "l' \<equiv> (if gs' = [] then AList.delete date l else AList.update date gs' l)"
  shows "mark_game_as_retried fs path game date dv gn True = fs(path := Parsed l')
       \<and> ledger_inv l'
       \<and> length es' + 1 = length (entries_of l date game)
       \<and> entries_of l' date game = es'
       \<and> records_for l' date game dv gn = []
       \<and> map_of (dict_get l' date []) game = (if es' = [] then None else Some es')
       \<and> map_of l' date = (if gs' = [] then None else Some gs')
       \<and> game \<notin> set (get_failed_games_for_division_gender l' date dv gn)"
proof -
  let ?es = "entries_of l date game"
  have nonempty: "?es \<noteq> []" using assms(3) by (auto simp: records_for_def)
  then obtain gs where gs: "map_of l date = Some gs"
    by (cases "map_of l date") (auto simp: entries_of_def dict_get_def)
  with nonempty obtain es where es: "map_of gs game = Some es"
    by (cases "map_of gs game") (auto simp: entries_of_def dict_get_def)
  have old: "?es = es" using gs es by (rule entries_of_lookup)
  have dg: "dict_get l date [] = gs" using gs by (simp add: dict_get_def)
  have ginv: "games_inv gs" using assms(2) gs by (rule games_inv_lookup)
  have uniq: "unique_records es" using ginv es by (rule unique_lookup)
  from assms(3) obtain i where i: "find_existing es dv gn = Some i"
    by (cases "find_existing es dv gn") (auto simp: records_for_def old records_absent)
  have pop: "take i es @ drop (Suc i) es = es'"
    unfolding es'_def old by (rule pop_is_filter[OF i uniq])
  have rg: "retry_games gs game es dv gn True = gs'"
    using i by (simp add: retry_games_cases pop gs'_def dg)
  have store: "retry_store l game date dv gn True = Some l'"
    by (simp add: retry_store_Some[OF gs es] rg l'_def)
  have written: "mark_game_as_retried fs path game date dv gn True = fs(path := Parsed l')"
    using assms(1) by (simp add: mark_game_as_retried_def os_path_exists_def read_parsed_def store)
  have inv: "ledger_inv l'" using assms(2) store by (rule ledger_inv_retry_store)
  have len: "length es' + 1 = length ?es"
    using find_existing_Some[OF i] by (simp add: pop[symmetric] old) arith
  have dg': "dict_get l' date [] = gs'"
    by (simp add: l'_def dict_get_update_same dict_get_delete_same)
  have ent: "entries_of l' date game = es'"
    by (simp add: entries_of_def dg' gs'_def dict_get_update_same dict_get_delete_same)
  have recs: "records_for l' date game dv gn = []"
    using records_for_retry_store[OF assms(2) store] by simp
  have game_entry: "map_of (dict_get l' date []) game = (if es' = [] then None else Some es')"
    by (simp add: dg' gs'_def update_conv' delete_conv')
  have date_entry: "map_of l' date = (if gs' = [] then None else Some gs')"
    by (simp add: l'_def update_conv' delete_conv')
  have query: "game \<notin> set (get_failed_games_for_division_gender l' date dv gn)"
  proof
    assume "game \<in> set (get_failed_games_for_division_gender l' date dv gn)"
    then obtain es2 where es2: "(game, es2) \<in> set gs'" "find_existing es2 dv gn \<noteq> None"
      using query_members[of game l' date dv gn] by (auto simp: dg')
    have "distinct (map fst gs')" using games_inv_retry_games[OF ginv uniq, of game dv gn True]
      by (simp add: rg games_inv_def)
    with es2(1) have "map_of gs' game = Some es2" by simp
    with game_entry have "es2 = es'" "es' \<noteq> []" by (auto simp: dg' split: if_splits)
    then have "(dv, gn) \<notin> set (map key_of es2)" by (auto simp: es'_def)
    with es2(2) show False by (simp add: find_existing_None_iff)
  qed
  from written inv len ent recs game_entry date_entry query show ?thesis by blast
qed

theorem mark_game_as_retried_success_removes_witness:
  "ledger_inv [(''2025-01-12'',
       [(''g1'', [\<lparr>division = ''d1'', gender = ''men'', error_type = ''timeout'',
                   error_message = ''t'', retry_count = Some 2\<rparr>,
                 \<lparr>division = ''d1'', gender = ''women'', error_type = ''timeout'',
                   error_message = ''u'', retry_count = Some 0\<rparr>]),
        (''g2'', [\<lparr>division = ''d1'', gender = ''men'', error_type = ''exception'',
                   error_message = ''v'', retry_count = None\<rparr>])])]
   \<and> mark_game_as_retried
        (\<lambda>p. Parsed [(''2025-01-12'',
           [(''g1'', [\<lparr>division = ''d1'', gender = ''men'', error_type = ''timeout'',
                       error_message = ''t'', retry_count = Some 2\<rparr>,
                     \<lparr>division = ''d1'', gender = ''women'', error_type = ''timeout'',
                       error_message = ''u'', retry_count = Some 0\<rparr>]),
            (''g2'', [\<lparr>division = ''d1'', gender = ''men'', error_type = ''exception'',
                       error_message = ''v'', retry_count = None\<rparr>])])])
        ''failed.json'' ''g1'' ''2025-01-12'' ''d1'' ''men'' True ''failed.json''
      = Parsed [(''2025-01-12'',
           [(''g1'', [\<lparr>division = ''d1'', gender = ''women'', error_type = ''timeout'',
                       error_message = ''u'', retry_count = Some 0\<rparr>]),
            (''g2'', [\<lparr>division = ''d1'', gender = ''men'', error_type = ''exception'',
                       error_message = ''v'', retry_count = None\<rparr>])])]
   \<and> get_failed_games_for_division_gender
        [(''2025-01-12'',
           [(''g1'', [\<lparr>division = ''d1'', gender = ''women'', error_type = ''timeout'',
                       error_message = ''u'', retry_count = Some 0\<rparr>]),
            (''g2'', [\<lparr>division = ''d1'', gender = ''men'', error_type = ''exception'',
                       error_message = ''v'', retry_count = None\<rparr>])])]
        ''2025-01-12'' ''d1'' ''men'' = [''g2'']"
proof -
  let ?m = "\<lparr>division = ''d1'', gender = ''men'', error_type = ''timeout'',
                   error_message = ''t'', retry_count = Some 2\<rparr>"
  let ?w = "\<lparr>division = ''d1'', gender = ''women'', error_type = ''timeout'',
                   error_message = ''u'', retry_count = Some 0\<rparr>"
  let ?o = "\<lparr>division = ''d1'', gender = ''men'', error_type = ''exception'',
                   error_message = ''v'', retry_count = None\<rparr>"
  let ?l = "[(''2025-01-12'', [(''g1'', [?m, ?w]), (''g2'', [?o])])]"
  let ?l' = "[(''2025-01-12'', [(''g1'', [?w]), (''g2'', [?o])])]"
  have h2: "ledger_inv ?l"
    by (simp add: ledger_inv_def games_inv_def unique_records_def key_of_def)
  have h3: "records_for ?l ''2025-01-12'' ''g1'' ''d1'' ''men'' \<noteq> []"
    by (simp add: records_for_def entries_of_def dict_get_def key_of_def)
  have q: "get_failed_games_for_division_gender ?l' ''2025-01-12'' ''d1'' ''men'' = [''g2'']"
    by (simp add: get_failed_games_for_division_gender_def dict_get_def)
  from mark_game_as_retried_success_removes[where fs = "\<lambda>p. Parsed ?l"
      and path = "''failed.json''" and l = ?l and date = "''2025-01-12''" and game = "''g1''"
      and dv = "''d1''" and gn = "''men''"] h2 h3
  have "mark_game_as_retried (\<lambda>p. Parsed ?l) ''failed.json'' ''g1'' ''2025-01-12'' ''d1'' ''men''
          True ''failed.json'' = Parsed ?l'"
    by (simp add: entries_of_def dict_get_def key_of_def)
  with h2 q show ?thesis by simp
qed

subsection \<open>Sequences of calls\<close>

lemma since_last_success_snoc:
  "since_last_success (evs @ [ev]) =
     (if ev = Retried True then [] else since_last_success evs @ [ev])"
  by (simp add: since_last_success_def)

lemma record_life_snoc:
  "record_life (evs @ [ev]) =
     (if ev = Retried True then []
      else if record_life evs = [] then (if is_save ev then [ev] else [])
      else record_life evs @ [ev])"
  by (auto simp: record_life_def since_last_success_snoc dropWhile_append
      dropWhile_eq_Nil_conv)

lemma last_save_snoc_save: "last_save (evs @ [Save et em]) = (et, em)"
  by (simp add: last_save_def)

lemma last_save_snoc_retried: "last_save (evs @ [Retried s]) = last_save evs"
  by (simp add: last_save_def)

lemma failed_retries_snoc:
  "failed_retries (evs @ [ev]) = failed_retries evs + (if ev = Retried False then 1 else 0)"
  by (simp add: failed_retries_def)

lemma run_events_snoc:
  "run_events fs path game date dv gn (evs @ [ev]) =
     apply_event path game date dv gn (run_events fs path game date dv gn evs) ev"
  by (simp add: run_events_def)

lemma load_or_empty_cases:
  "load_or_empty fs path = (case fs path of Parsed l \<Rightarrow> l | _ \<Rightarrow> [])"
  by (simp add: load_or_empty_def os_path_exists_def read_parsed_def split: file_state.splits)

lemma records_for_save_store:
  assumes "ledger_inv l"
  shows "records_for (save_store l game date dv gn et em) date game dv gn =
           (case records_for l date game dv gn of
              [] \<Rightarrow> [\<lparr>division = dv, gender = gn, error_type = et, error_message = em,
                       retry_count = Some 0\<rparr>]
            | e # _ \<Rightarrow> [e\<lparr>error_type := et, error_message := em,
                          retry_count := Some (get_retry_count e)\<rparr>])"
proof -
  let ?es = "entries_of l date game"
  have uniq: "unique_records ?es" using assms by (rule unique_entries_of)
  show ?thesis
  proof (cases "find_existing ?es dv gn")
    case None
    then have absent: "(dv, gn) \<notin> set (map key_of ?es)" by (simp add: find_existing_None_iff)
    moreover have "key_of \<lparr>division = dv, gender = gn, error_type = et, error_message = em,
                             retry_count = Some 0\<rparr> = (dv, gn)"
      by (simp add: key_of_def)
    ultimately show ?thesis
      using records_absent[OF None]
      by (simp add: records_for_def entries_of_save_store_same save_entries_absent)
  next
    case (Some i)
    from find_existing_Some[OF Some]
    have i: "i < length ?es" and k: "key_of (?es ! i) = (dv, gn)" by simp_all
    let ?x = "(?es ! i)\<lparr>error_type := et, error_message := em,
                          retry_count := Some (get_retry_count (?es ! i))\<rparr>"
    have new: "entries_of (save_store l game date dv gn et em) date game = ?es[i := ?x]"
      unfolding entries_of_save_store_same using i k uniq by (rule save_entries_found)
    have "map key_of (?es[i := ?x]) = map key_of ?es"
      using i by (simp add: map_update key_of_def list_update_same_conv)
    then have "distinct (map key_of (?es[i := ?x]))"
      using uniq by (simp add: unique_records_def)
    moreover have "i < length (?es[i := ?x])" using i by simp
    moreover have "key_of (?es[i := ?x] ! i) = (dv, gn)" using i k by (simp add: key_of_def)
    ultimately have "filter (\<lambda>e. key_of e = (dv, gn)) (?es[i := ?x]) = [?es[i := ?x] ! i]"
      by (rule filter_key_single)
    then show ?thesis
      using i by (simp add: records_for_def new records_found[OF Some uniq])
  qed
qed

text \<open>One call, seen from the records of the key.\<close>

lemma apply_event_step:
  fixes fs :: "ledger filesystem" and path game date dv gn :: string and ev :: event
  assumes "file_inv (fs path)"
  defines "fs' \<equiv> apply_event path game date dv gn fs ev"
  defines "before \<equiv> records_for (load_or_empty fs path) date game dv gn"
  shows "file_inv (fs' path)"
    and "records_for (load_or_empty fs' path) date game dv gn =
           (case ev of
              Save et em \<Rightarrow>
                (case before of
                   [] \<Rightarrow> [\<lparr>division = dv, gender = gn, error_type = et, error_message = em,
                            retry_count = Some 0\<rparr>]
                 | e # _ \<Rightarrow> [e\<lparr>error_type := et, error_message := em,
                               retry_count := Some (get_retry_count e)\<rparr>])
            | Retried True \<Rightarrow> []
            | Retried False \<Rightarrow>
                map (\<lambda>e. e\<lparr>retry_count := Some (get_retry_count e + 1)\<rparr>) before)"
proof -
  have inv: "ledger_inv (load_or_empty fs path)" using assms(1) by (rule load_or_empty_inv)
  show "file_inv (fs' path)"
  proof (cases ev)
    case (Save et em)
    then show ?thesis
      using inv by (simp add: fs'_def save_failed_game_def file_inv_def ledger_inv_save_store)
  next
    case (Retried s)
    show ?thesis
    proof (cases "fs path")
      case (Parsed l)
      then have l: "ledger_inv l" using assms(1) by (simp add: file_inv_def)
      show ?thesis
        using Parsed Retried l assms(1)
        by (auto simp: fs'_def mark_game_as_retried_def os_path_exists_def read_parsed_def
            file_inv_def ledger_inv_retry_store split: option.splits)
    qed (use Retried assms(1) in
         \<open>simp_all add: fs'_def mark_game_as_retried_def os_path_exists_def read_parsed_def\<close>)
  qed
  show "records_for (load_or_empty fs' path) date game dv gn =
           (case ev of
              Save et em \<Rightarrow>
                (case before of
                   [] \<Rightarrow> [\<lparr>division = dv, gender = gn, error_type = et, error_message = em,
                            retry_count = Some 0\<rparr>]
                 | e # _ \<Rightarrow> [e\<lparr>error_type := et, error_message := em,
                               retry_count := Some (get_retry_count e)\<rparr>])
            | Retried True \<Rightarrow> []
            | Retried False \<Rightarrow>
                map (\<lambda>e. e\<lparr>retry_count := Some (get_retry_count e + 1)\<rparr>) before)"
  proof (cases ev)
    case (Save et em)
    have "load_or_empty fs' path = save_store (load_or_empty fs path) game date dv gn et em"
      by (simp add: fs'_def Save save_failed_game_def load_or_empty_cases)
    then show ?thesis
      using records_for_save_store[OF inv, of game date dv gn et em]
      by (simp add: Save before_def)
  next
    case (Retried s)
    show ?thesis
    proof (cases "fs path")
      case Missing
      then show ?thesis
        using Retried
        by (cases s) (simp_all add: fs'_def before_def mark_game_as_retried_def
            os_path_exists_def load_or_empty_cases records_for_def entries_of_def dict_get_def)
    next
      case Unparsable
      then show ?thesis
        using Retried
        by (cases s) (simp_all add: fs'_def before_def mark_game_as_retried_def
            os_path_exists_def read_parsed_def load_or_empty_cases records_for_def
            entries_of_def dict_get_def)
    next
      case (Parsed l)
      then have l: "ledger_inv l" using assms(1) by (simp add: file_inv_def)
      show ?thesis
      proof (cases "retry_store l game date dv gn s")
        case None
        then have "fs' = fs"
          using Parsed Retried
          by (simp add: fs'_def mark_game_as_retried_def os_path_exists_def read_parsed_def)
        moreover have "before = []"
          using retry_store_None[OF None] Parsed
          by (simp add: before_def load_or_empty_cases records_for_def)
        ultimately show ?thesis
          using Retried by (cases s) (simp_all add: before_def)
      next
        case (Some l')
        then have "load_or_empty fs' path = l'"
          using Parsed Retried
          by (simp add: fs'_def mark_game_as_retried_def os_path_exists_def read_parsed_def
              load_or_empty_cases)
        then show ?thesis
          using records_for_retry_store[OF l Some] Parsed Retried
          by (cases s) (simp_all add: before_def load_or_empty_cases)
      qed
    qed
  qed
qed

lemma run_events_records:
  fixes fs :: "ledger filesystem" and path game date dv gn :: string
  assumes "file_inv (fs path)"
    and "records_for (load_or_empty fs path) date game dv gn = []"
  shows "file_inv (run_events fs path game date dv gn evs path)
       \<and> records_for (load_or_empty (run_events fs path game date dv gn evs) path)
             date game dv gn =
           (if record_life evs = [] then []
            else [\<lparr>division = dv, gender = gn, error_type = fst (last_save evs),
                    error_message = snd (last_save evs),
                    retry_count = Some (failed_retries (record_life evs))\<rparr>])"
proof (induction evs rule: rev_induct)
  case Nil
  show ?case using assms by (simp add: run_events_def record_life_def since_last_success_def)
next
  case (snoc ev evs)
  let ?fs = "run_events fs path game date dv gn evs"
  from snoc have inv: "file_inv (?fs path)" by simp
  note step = apply_event_step[where fs = ?fs and path = path and game = game and date = date
      and dv = dv and gn = gn and ev = ev, OF inv]
  have "file_inv (run_events fs path game date dv gn (evs @ [ev]) path)"
    using step(1) by (simp add: run_events_snoc)
  moreover have "records_for (load_or_empty (run_events fs path game date dv gn (evs @ [ev])) path)
             date game dv gn =
           (if record_life (evs @ [ev]) = [] then []
            else [\<lparr>division = dv, gender = gn, error_type = fst (last_save (evs @ [ev])),
                    error_message = snd (last_save (evs @ [ev])),
                    retry_count = Some (failed_retries (record_life (evs @ [ev])))\<rparr>])"
  proof (cases ev)
    case (Save et em)
    then show ?thesis
      using step(2) snoc
      by (simp add: run_events_snoc record_life_snoc last_save_snoc_save failed_retries_snoc
          get_retry_count_def failed_retries_def)
  next
    case (Retried s)
    then show ?thesis
      using step(2) snoc
      by (cases s) (simp_all add: run_events_snoc record_life_snoc last_save_snoc_retried
          failed_retries_snoc get_retry_count_def)
  qed
  ultimately show ?case by simp
qed

text \<open>
  Claim C2, as amended. Start from a ledger state with no record for the key and run any
  sequence of save and retry calls for that key. If a save follows the last successful retry,
  the store ends with exactly one record for the key: its error type and message are those of
  the last save and its retry count is the number of failed retries made since the first save
  after the last successful retry. Otherwise the store ends with no record for the key. A
  failed retry on an existing record adds exactly 1 to its retry count, a missing count
  being 0.
\<close>

theorem retry_count_counts_failed_retries:
  fixes fs fsr :: "ledger filesystem" and path game date dv gn :: string
  shows "(file_inv (fs path) \<and> records_for (load_or_empty fs path) date game dv gn = [] \<longrightarrow>
           records_for (load_or_empty (run_events fs path game date dv gn evs) path)
               date game dv gn =
             (if record_life evs = [] then []
              else [\<lparr>division = dv, gender = gn, error_type = fst (last_save evs),
                      error_message = snd (last_save evs),
                      retry_count = Some (failed_retries (record_life evs))\<rparr>]))
       \<and> (file_inv (fsr path) \<and> records_for (load_or_empty fsr path) date game dv gn = [e] \<longrightarrow>
           records_for
               (load_or_empty (mark_game_as_retried fsr path game date dv gn False) path)
               date game dv gn =
             [e\<lparr>retry_count := Some ((case retry_count e of None \<Rightarrow> 0 | Some n \<Rightarrow> n) + 1)\<rparr>])"
proof (intro conjI impI)
  assume "file_inv (fs path) \<and> records_for (load_or_empty fs path) date game dv gn = []"
  then show "records_for (load_or_empty (run_events fs path game date dv gn evs) path)
               date game dv gn =
             (if record_life evs = [] then []
              else [\<lparr>division = dv, gender = gn, error_type = fst (last_save evs),
                      error_message = snd (last_save evs),
                      retry_count = Some (failed_retries (record_life evs))\<rparr>])"
    using run_events_records[of fs path date game dv gn evs] by simp
next
  assume a: "file_inv (fsr path) \<and> records_for (load_or_empty fsr path) date game dv gn = [e]"
  then have inv: "file_inv (fsr path)" by simp
  from apply_event_step(2)[where fs = fsr and path = path and game = game and date = date
      and dv = dv and gn = gn and ev = "Retried False", OF inv] a
  show "records_for
               (load_or_empty (mark_game_as_retried fsr path game date dv gn False) path)
               date game dv gn =
             [e\<lparr>retry_count := Some ((case retry_count e of None \<Rightarrow> 0 | Some n \<Rightarrow> n) + 1)\<rparr>]"
    by (simp add: get_retry_count_def)
qed

theorem retry_count_counts_failed_retries_witness:
  "file_inv ((\<lambda>p. Missing) ''failed.json'')
   \<and> records_for
        (load_or_empty
           (run_events (\<lambda>p. Missing) ''failed.json'' ''g1'' ''2025-01-12'' ''d1'' ''men''
              [Save ''timeout'' ''a'', Retried False, Retried True, Retried False,
               Save ''timeout'' ''b'', Retried False, Save ''driver_error'' ''c'', Retried False])
           ''failed.json'')
        ''2025-01-12'' ''g1'' ''d1'' ''men''
      = [\<lparr>division = ''d1'', gender = ''men'', error_type = ''driver_error'',
           error_message = ''c'', retry_count = Some 2\<rparr>]
   \<and> records_for
        (load_or_empty
           (mark_game_as_retried
              (\<lambda>p. Parsed [(''2025-01-12'', [(''g1'',
                 [\<lparr>division = ''d1'', gender = ''men'', error_type = ''timeout'',
                   error_message = ''a'', retry_count = None\<rparr>])])])
              ''failed.json'' ''g1'' ''2025-01-12'' ''d1'' ''men'' False)
           ''failed.json'')
        ''2025-01-12'' ''g1'' ''d1'' ''men''
      = [\<lparr>division = ''d1'', gender = ''men'', error_type = ''timeout'',
           error_message = ''a'', retry_count = Some 1\<rparr>]"
proof -
  let ?evs = "[Save ''timeout'' ''a'', Retried False, Retried True, Retried False,
               Save ''timeout'' ''b'', Retried False, Save ''driver_error'' ''c'', Retried False]"
  let ?e = "\<lparr>division = ''d1'', gender = ''men'', error_type = ''timeout'',
                   error_message = ''a'', retry_count = None\<rparr>"
  let ?l = "[(''2025-01-12'', [(''g1'', [?e])])]"
  have h1: "file_inv ((\<lambda>p. Missing :: ledger file_state) ''failed.json'')"
    by (simp add: file_inv_def)
  have h2: "records_for (load_or_empty (\<lambda>p. Missing) ''failed.json'')
              ''2025-01-12'' ''g1'' ''d1'' ''men'' = []"
    by (simp add: load_or_empty_def os_path_exists_def records_for_def entries_of_def
        dict_get_def)
  have h3: "file_inv ((\<lambda>p. Parsed ?l) ''failed.json'')"
    by (simp add: file_inv_def ledger_inv_def games_inv_def unique_records_def key_of_def)
  have h4: "records_for (load_or_empty (\<lambda>p. Parsed ?l) ''failed.json'')
              ''2025-01-12'' ''g1'' ''d1'' ''men'' = [?e]"
    by (simp add: load_or_empty_def os_path_exists_def read_parsed_def records_for_def
        entries_of_def dict_get_def key_of_def)
  have life: "record_life ?evs =
                [Save ''timeout'' ''b'', Retried False, Save ''driver_error'' ''c'', Retried False]"
    by (simp add: record_life_def since_last_success_def)
  have fr: "failed_retries
              [Save ''timeout'' ''b'', Retried False, Save ''driver_error'' ''c'', Retried False]
            = 2"
    by (simp add: failed_retries_def)
  have ls: "last_save ?evs = (''driver_error'', ''c'')"
    by (simp add: last_save_def)
  show ?thesis
    using retry_count_counts_failed_retries[where fs = "\<lambda>p. Missing" and path = "''failed.json''"
        and game = "''g1''" and date = "''2025-01-12''" and dv = "''d1''" and gn = "''men''"
        and evs = ?evs and fsr = "\<lambda>p. Parsed ?l" and e = ?e]
      h1 h2 h3 h4
    by (simp add: life fr ls)
qed

text \<open>
  Claim C2 as stated fails: after a save and a successful retry the store has no record for the
  key, and a failed retry made before the first save is not counted (the record saved after it
  has retry count 0, while one failed retry was made since the last success).
\<close>

theorem retry_count_since_last_success_counterexample:
  "records_for
        (load_or_empty
           (run_events (\<lambda>p. Missing) ''failed.json'' ''g1'' ''2025-01-12'' ''d1'' ''men''
              [Save ''timeout'' ''a'', Retried True])
           ''failed.json'')
        ''2025-01-12'' ''g1'' ''d1'' ''men'' = []
   \<and> records_for
        (load_or_empty
           (run_events (\<lambda>p. Missing) ''failed.json'' ''g1'' ''2025-01-12'' ''d1'' ''men''
              [Retried False, Save ''timeout'' ''a''])
           ''failed.json'')
        ''2025-01-12'' ''g1'' ''d1'' ''men''
      = [\<lparr>division = ''d1'', gender = ''men'', error_type = ''timeout'',
           error_message = ''a'', retry_count = Some 0\<rparr>]
   \<and> failed_retries (since_last_success [Retried False, Save ''timeout'' ''a'']) = 1"
  by (simp add: run_events_def save_failed_game_def mark_game_as_retried_def load_or_empty_def
      os_path_exists_def read_parsed_def save_store_def dict_has_def dict_get_def
      save_entries_def retry_store_def retry_games_def records_for_def entries_of_def
      key_of_def failed_retries_def since_last_success_def get_retry_count_def)

section \<open>Properties of the CSV engine\<close>

lemma read_csv_safely_cases:
  "read_csv_safely fs p = (case fs p of Parsed df \<Rightarrow> Some df | _ \<Rightarrow> None)"
  by (simp add: read_csv_safely_def os_path_exists_def read_parsed_def split: file_state.splits)






subsection \<open>Merging\<close>

lemma merge_csv_files_both:
  assumes "fs existing = Parsed e" and "fs new = Parsed n" and "\<not> df_empty n"
  shows "merge_csv_files fs existing new output =
     (let ids = (if ''GAMEID'' \<in> set (columns e) then set (column_values e ''GAMEID'') else {});
          links = (if ''GAMELINK'' \<in> set (columns e)
                   then set (column_values e ''GAMELINK'') else {});
          kept = (if ''GAMEID'' \<in> set (columns n)
                  then filter (\<lambda>r. r ''GAMEID'' \<notin> ids) (rows n)
                  else if ''GAMELINK'' \<in> set (columns n)
                  then filter (\<lambda>r. r ''GAMELINK'' \<notin> links) (rows n)
                  else rows n)
      in (True, fs(output := Parsed (if kept = [] then e else pd_concat e (n\<lparr>rows := kept\<rparr>)))))"
  using assms
  by (auto simp: merge_csv_files_def read_csv_safely_cases Let_def df_filter_def df_empty_def)













text \<open>
  Claim C4, as amended. The fallback depends on the new table alone. When the new table
  (not empty) has no GAMEID column, its rows are filtered on GAMELINK: a row is dropped when
  its GAMELINK is in the existing table's GAMELINK column (no row is dropped when the existing
  table has no such column); when the new table has neither column, all its rows are kept.
\<close>

theorem merge_csv_files_fallback_on_new:
  fixes fs :: "dataframe filesystem" and existing new out_path :: string and e n :: dataframe
  assumes "fs existing = Parsed e" and "fs new = Parsed n" and "\<not> df_empty n"
    and "''GAMEID'' \<notin> set (columns n)"
  defines "links \<equiv> (if ''GAMELINK'' \<in> set (columns e)
                     then set (column_values e ''GAMELINK'') else {})"
  defines "kept \<equiv> (if ''GAMELINK'' \<in> set (columns n)
                    then filter (\<lambda>r. r ''GAMELINK'' \<notin> links) (rows n) else rows n)"
  defines "out \<equiv> (if kept = [] then e else pd_concat e (n\<lparr>rows := kept\<rparr>))"
  shows "merge_csv_files fs existing new out_path = (True, fs(out_path := Parsed out))
       \<and> rows out = rows e @ kept
       \<and> (''GAMELINK'' \<in> set (columns n) \<and> ''GAMELINK'' \<in> set (columns e) \<longrightarrow>
            kept = filter (\<lambda>r. r ''GAMELINK'' \<notin> set (column_values e ''GAMELINK'')) (rows n))
       \<and> (''GAMELINK'' \<notin> set (columns n) \<longrightarrow> kept = rows n)"
proof -
  have "merge_csv_files fs existing new out_path = (True, fs(out_path := Parsed out))"
    using merge_csv_files_both[OF assms(1-3), of out_path] assms(4)
    by (simp add: Let_def out_def kept_def links_def)
  moreover have "rows out = rows e @ kept"
    by (simp add: out_def pd_concat_def)
  ultimately show ?thesis by (simp add: kept_def links_def)
qed

theorem merge_csv_files_fallback_on_new_witness:
  "merge_csv_files
     (\<lambda>p. if p = ''old.csv''
           then Parsed \<lparr>columns = [''GAMEID'', ''GAMELINK''],
                        rows = [[''GAMEID'' \<mapsto> CStr ''A'', ''GAMELINK'' \<mapsto> CStr ''L1'']]\<rparr>
           else Parsed \<lparr>columns = [''GAMELINK''],
                        rows = [[''GAMELINK'' \<mapsto> CStr ''L1''],
                                [''GAMELINK'' \<mapsto> CStr ''L2'']]\<rparr>)
     ''old.csv'' ''new.csv'' ''merged.csv''
   = (True,
     (\<lambda>p. if p = ''old.csv''
           then Parsed \<lparr>columns = [''GAMEID'', ''GAMELINK''],
                        rows = [[''GAMEID'' \<mapsto> CStr ''A'', ''GAMELINK'' \<mapsto> CStr ''L1'']]\<rparr>
           else Parsed \<lparr>columns = [''GAMELINK''],
                        rows = [[''GAMELINK'' \<mapsto> CStr ''L1''],
                                [''GAMELINK'' \<mapsto> CStr ''L2'']]\<rparr>)
     (''merged.csv'' :=
        Parsed \<lparr>columns = [''GAMEID'', ''GAMELINK''],
                rows = [[''GAMEID'' \<mapsto> CStr ''A'', ''GAMELINK'' \<mapsto> CStr ''L1''],
                        [''GAMELINK'' \<mapsto> CStr ''L2'']]\<rparr>))"
proof -
  let ?e = "\<lparr>columns = [''GAMEID'', ''GAMELINK''],
                        rows = [[''GAMEID'' \<mapsto> CStr ''A'', ''GAMELINK'' \<mapsto> CStr ''L1'']]\<rparr>"
  let ?n = "\<lparr>columns = [''GAMELINK''],
                        rows = [[''GAMELINK'' \<mapsto> CStr ''L1''],
                                [''GAMELINK'' \<mapsto> CStr ''L2'']]\<rparr>"
  let ?fs = "\<lambda>p. if p = ''old.csv'' then Parsed ?e else Parsed ?n"
  have h1: "?fs ''old.csv'' = Parsed ?e" by simp
  have h2: "?fs ''new.csv'' = Parsed ?n" by simp
  have h3: "\<not> df_empty ?n" by (simp add: df_empty_def)
  have h4: "''GAMEID'' \<notin> set (columns ?n)" by simp
  from merge_csv_files_fallback_on_new[where fs = ?fs and existing = "''old.csv''"
      and new = "''new.csv''" and e = ?e and n = ?n and out_path = "''merged.csv''",
      OF h1 h2 h3 h4]
  show ?thesis by (simp add: column_values_def pd_concat_def)
qed

text \<open>
  Claim C4 as stated fails: here GAMEID is absent from the existing table, the new row's
  GAMELINK is in the existing table, and the row is in the output all the same, because the
  new table has GAMEID and the filter compares against an empty set of identities.
\<close>

theorem merge_csv_files_fallback_counterexample:
  "''GAMEID'' \<notin> set (columns \<lparr>columns = [''GAMELINK''],
                                  rows = [[''GAMELINK'' \<mapsto> CStr ''L1'']]\<rparr>)
   \<and> merge_csv_files
     (\<lambda>p. if p = ''old.csv''
           then Parsed \<lparr>columns = [''GAMELINK''],
                        rows = [[''GAMELINK'' \<mapsto> CStr ''L1'']]\<rparr>
           else Parsed \<lparr>columns = [''GAMEID'', ''GAMELINK''],
                        rows = [[''GAMEID'' \<mapsto> CStr ''A'', ''GAMELINK'' \<mapsto> CStr ''L1'']]\<rparr>)
     ''old.csv'' ''new.csv'' ''merged.csv''
   = (True,
     (\<lambda>p. if p = ''old.csv''
           then Parsed \<lparr>columns = [''GAMELINK''],
                        rows = [[''GAMELINK'' \<mapsto> CStr ''L1'']]\<rparr>
           else Parsed \<lparr>columns = [''GAMEID'', ''GAMELINK''],
                        rows = [[''GAMEID'' \<mapsto> CStr ''A'', ''GAMELINK'' \<mapsto> CStr ''L1'']]\<rparr>)
     (''merged.csv'' :=
        Parsed \<lparr>columns = [''GAMELINK'', ''GAMEID''],
                rows = [[''GAMELINK'' \<mapsto> CStr ''L1''],
                        [''GAMEID'' \<mapsto> CStr ''A'', ''GAMELINK'' \<mapsto> CStr ''L1'']]\<rparr>))"
  by (simp add: merge_csv_files_def read_csv_safely_def os_path_exists_def read_parsed_def
      df_empty_def df_filter_def column_values_def pd_concat_def)

end
